theory Spec2Isabelle
  imports Main
begin

section \<open>The CRUSH rule module of ceph.automation\<close>

text \<open>
  The development follows \<^verbatim>\<open>plugins/modules/ceph_crush_rule.py\<close>. A Python
  \<^verbatim>\<open>str\<close> is a \<^typ>\<open>string\<close> whose characters stand for the code points
  U+0000 to U+00FF; \<^verbatim>\<open>None\<close> is \<^term>\<open>None\<close>; an exception is a value
  of \<open>py_error\<close> on the left of a sum.
\<close>

subsection \<open>Python string primitives\<close>

datatype py_error = TypeError | KeyError | IndexError | OSError | JSONDecodeError

abbreviation LF :: char where "LF \<equiv> CHR 0x0A"
abbreviation CR :: char where "CR \<equiv> CHR 0x0D"
abbreviation TAB :: char where "TAB \<equiv> CHR 0x09"

text \<open>\<^verbatim>\<open>s.startswith(p)\<close>.\<close>

definition startswith :: "string \<Rightarrow> string \<Rightarrow> bool" where
  "startswith s p = (take (length p) s = p)"

text \<open>
  The line boundaries of \<^verbatim>\<open>str.splitlines\<close> below U+0100: LF, VT, FF, CR, FS, GS,
  RS and NEL; CR followed by LF is one boundary.
\<close>

definition is_linebreak :: "char \<Rightarrow> bool" where
  "is_linebreak c = (c \<in> set [CHR 0x0A, CHR 0x0B, CHR 0x0C, CHR 0x0D,
                               CHR 0x1C, CHR 0x1D, CHR 0x1E, CHR 0x85])"

text \<open>
  \<^verbatim>\<open>str.splitlines()\<close>: the text is cut at every boundary, the boundaries are
  dropped, and a text that ends with a boundary has no empty last line. The first
  argument is the line read so far.
\<close>

fun splitlines_from :: "string \<Rightarrow> string \<Rightarrow> string list" where
  "splitlines_from cur [] = (if cur = [] then [] else [cur])"
| "splitlines_from cur [c] =
     (if is_linebreak c then [cur] else [cur @ [c]])"
| "splitlines_from cur (c # d # cs) =
     (if c = CR \<and> d = LF then cur # splitlines_from [] cs
      else if is_linebreak c then cur # splitlines_from [] (d # cs)
      else splitlines_from (cur @ [c]) (d # cs))"

definition splitlines :: "string \<Rightarrow> string list" where
  "splitlines s = splitlines_from [] s"

text \<open>\<^verbatim>\<open>sep.join(xs)\<close>.\<close>

fun join :: "string \<Rightarrow> string list \<Rightarrow> string" where
  "join sep [] = []"
| "join sep [x] = x"
| "join sep (x # y # ys) = x @ sep @ join sep (y # ys)"

text \<open>
  \<^verbatim>\<open>s.replace(old, new)\<close>: every occurrence of \<open>old\<close> is replaced, scanning
  from the left without overlap. With an empty \<open>old\<close> Python puts \<open>new\<close> before
  every character and at the end.
\<close>

function replace_ne :: "string \<Rightarrow> string \<Rightarrow> string \<Rightarrow> string" where
  "replace_ne [] old new = []"
| "replace_ne (c # cs) old new =
     (if old \<noteq> [] \<and> startswith (c # cs) old
      then new @ replace_ne (drop (length old) (c # cs)) old new
      else c # replace_ne cs old new)"
  by pat_completeness auto
termination
  by (relation "measure (\<lambda>(s, old, new). length s)") (auto simp: neq_Nil_conv)

definition replace :: "string \<Rightarrow> string \<Rightarrow> string \<Rightarrow> string" where
  "replace s old new =
     (if old = [] then new @ concat (map (\<lambda>c. c # new) s) else replace_ne s old new)"

text \<open>
  \<^verbatim>\<open>s.replace(old, new)\<close> where \<open>old\<close> or \<open>new\<close> may be \<open>None\<close>, on which
  Python raises \<^verbatim>\<open>TypeError\<close>.
\<close>

definition str_replace :: "string \<Rightarrow> string option \<Rightarrow> string option \<Rightarrow> py_error + string" where
  "str_replace s old new =
     (case old of
        None \<Rightarrow> Inl TypeError
      | Some a \<Rightarrow> (case new of None \<Rightarrow> Inl TypeError | Some b \<Rightarrow> Inr (replace s a b)))"

text \<open>
  \<^verbatim>\<open>s.split(sep)\<close> for a separator of one character; the first argument is
  the part read so far. The result always has at least one part.
\<close>

fun split_from :: "string \<Rightarrow> char \<Rightarrow> string \<Rightarrow> string list" where
  "split_from cur sep [] = [cur]"
| "split_from cur sep (c # cs) =
     (if c = sep then cur # split_from [] sep cs else split_from (cur @ [c]) sep cs)"

definition split :: "string \<Rightarrow> char \<Rightarrow> string list" where
  "split s sep = split_from [] sep s"

text \<open>
  \<^verbatim>\<open>os.path.join(a, b)\<close> on POSIX: an absolute \<open>b\<close> replaces \<open>a\<close>, and a
  slash is put between the two unless \<open>a\<close> is empty or ends with one.
\<close>

definition path_join :: "string \<Rightarrow> string \<Rightarrow> string" where
  "path_join a b =
     (if startswith b ''/'' then b
      else if a = [] \<or> last a = CHR ''/'' then a @ b
      else a @ ''/'' @ b)"

text \<open>\<^verbatim>\<open>'{}'.format(x)\<close> for a parameter that may be \<open>None\<close>.\<close>

fun format_str :: "string option \<Rightarrow> string" where
  "format_str None = ''None''"
| "format_str (Some s) = s"

subsection \<open>The two regular expressions of \<^verbatim>\<open>patch_content\<close>\<close>

text \<open>
  \<^verbatim>\<open>\s\<close> in a \<^verbatim>\<open>str\<close> pattern matches the Unicode white space; below
  U+0100 that is U+0009 to U+000D, U+001C to U+0020, U+0085 and U+00A0.
\<close>

definition is_space :: "char \<Rightarrow> bool" where
  "is_space c = (c \<in> set [CHR 0x09, CHR 0x0A, CHR 0x0B, CHR 0x0C, CHR 0x0D,
                          CHR 0x1C, CHR 0x1D, CHR 0x1E, CHR 0x1F, CHR 0x20,
                          CHR 0x85, CHR 0xA0])"

text \<open>
  \<^verbatim>\<open>$\<close> without the MULTILINE flag: the end of the string, or just before a line
  feed that ends the string.
\<close>

definition at_end :: "string \<Rightarrow> bool" where
  "at_end r = (r = [] \<or> r = [LF])"

text \<open>
  \<^verbatim>\<open>re.compile(r'^\s*step take (\S+)( class (\S+))?$').match(line)\<close>.
  The result is \<open>None\<close> when the line does not match, and otherwise the groups
  1, 2 and 3 of the match; groups 2 and 3 are \<open>None\<close> when the optional group took
  no part in it.
  \<^verbatim>\<open>\s*\<close> is followed by the letter s and \<^verbatim>\<open>\S+\<close> by a space or the end, so
  each of them can only match the longest run, and the matcher never backtracks into
  a shorter one.
\<close>

definition reg_bucket_root :: "string \<Rightarrow> (string \<times> string option \<times> string option) option" where
  "reg_bucket_root line =
     (let s = dropWhile is_space line in
      if \<not> startswith s ''step take '' then None
      else
        let r = drop (length ''step take '') s;
            g1 = takeWhile (\<lambda>c. \<not> is_space c) r;
            r1 = dropWhile (\<lambda>c. \<not> is_space c) r
        in if g1 = [] then None
           else if startswith r1 '' class '' then
             (let r2 = drop (length '' class '') r1;
                  g3 = takeWhile (\<lambda>c. \<not> is_space c) r2;
                  r3 = dropWhile (\<lambda>c. \<not> is_space c) r2
              in if g3 \<noteq> [] \<and> at_end r3 then Some (g1, Some ('' class '' @ g3), Some g3)
                 else None)
           else if at_end r1 then Some (g1, None, None)
           else None)"

text \<open>
  \<^verbatim>\<open>re.compile(r'^\s*step chooseleaf firstn 0 type (\S+)$').match(line)\<close>:
  group 1, or \<open>None\<close>.
\<close>

definition reg_failure_domain :: "string \<Rightarrow> string option" where
  "reg_failure_domain line =
     (let s = dropWhile is_space line in
      if \<not> startswith s ''step chooseleaf firstn 0 type '' then None
      else
        let r = drop (length ''step chooseleaf firstn 0 type '') s;
            g1 = takeWhile (\<lambda>c. \<not> is_space c) r;
            r1 = dropWhile (\<lambda>c. \<not> is_space c) r
        in if g1 \<noteq> [] \<and> at_end r1 then Some g1 else None)"

subsection \<open>The module parameters\<close>

text \<open>
  \<^verbatim>\<open>module.params\<close>. \<open>name\<close> is required and \<open>state\<close> has a default, so both
  are strings; every other parameter is \<open>None\<close> when the task does not give it.
\<close>

record params =
  name :: string
  state :: string
  rule_type :: "string option"
  bucket_root :: "string option"
  bucket_type :: "string option"
  device_class :: "string option"
  profile :: "string option"

text \<open>The truth value of a parameter: \<open>None\<close> and the empty string are false.\<close>

fun truthy :: "string option \<Rightarrow> bool" where
  "truthy None = False"
| "truthy (Some s) = (s \<noteq> [])"

subsection \<open>\<^verbatim>\<open>patch_content\<close>\<close>

text \<open>
  The body of the loop for a line inside the rule block: the new text of
  \<^verbatim>\<open>crushmap[i]\<close>, or the \<^verbatim>\<open>TypeError\<close> of a replacement by \<open>None\<close>.
\<close>

definition patch_line :: "params \<Rightarrow> string \<Rightarrow> py_error + string" where
  "patch_line p line =
     (case reg_bucket_root line of
        Some (exist_root, group2, group3) \<Rightarrow>
          (case str_replace line (Some exist_root) (bucket_root p) of
             Inl e \<Rightarrow> Inl e
           | Inr l1 \<Rightarrow>
               if truthy (device_class p) \<and> group3 = None
                 then Inr (l1 @ '' class '' @ format_str (device_class p))
               else if device_class p = None \<and> truthy group3
                 then str_replace l1 group2 (Some [])
               else if truthy (device_class p) \<and> truthy group3
                 then str_replace l1 group3 (device_class p)
               else Inr l1)
      | None \<Rightarrow>
          (case reg_failure_domain line of
             Some exist_dom \<Rightarrow> str_replace line (Some exist_dom) (bucket_type p)
           | None \<Rightarrow> Inr line))"

text \<open>
  The loop over the lines. The flag is \<^verbatim>\<open>inside_rule_block\<close>; the result is the
  list \<^verbatim>\<open>crushmap\<close> after the loop. \<^verbatim>\<open>continue\<close> keeps the line and goes on,
  \<^verbatim>\<open>break\<close> keeps the line and all lines after it.
\<close>

fun patch_lines :: "params \<Rightarrow> bool \<Rightarrow> string list \<Rightarrow> py_error + string list" where
  "patch_lines p inside [] = Inr []"
| "patch_lines p inside (line # rest) =
     (if startswith line (''rule '' @ name p) then
        (case patch_lines p True rest of
           Inl e \<Rightarrow> Inl e
         | Inr ls \<Rightarrow> Inr (line # ls))
      else if inside \<and> startswith line ''}'' then Inr (line # rest)
      else if inside then
        (case patch_line p line of
           Inl e \<Rightarrow> Inl e
         | Inr l' \<Rightarrow>
             (case patch_lines p True rest of
                Inl e \<Rightarrow> Inl e
              | Inr ls \<Rightarrow> Inr (l' # ls)))
      else
        (case patch_lines p False rest of
           Inl e \<Rightarrow> Inl e
         | Inr ls \<Rightarrow> Inr (line # ls)))"

definition patch_content :: "params \<Rightarrow> string \<Rightarrow> py_error + string" where
  "patch_content p crushmap_content =
     (case patch_lines p False (splitlines crushmap_content) of
        Inl e \<Rightarrow> Inl e
      | Inr crushmap \<Rightarrow> Inr (join [LF] crushmap))"

subsection \<open>The rule as dumped, and \<^verbatim>\<open>need_changes\<close>\<close>

text \<open>
  The dictionaries that \<^verbatim>\<open>ceph osd crush rule dump <name> --format=json\<close> gives,
  with the keys the module reads: \<^verbatim>\<open>op\<close>, \<^verbatim>\<open>item_name\<close> and \<^verbatim>\<open>type\<close>
  of a step, \<^verbatim>\<open>type\<close> and \<^verbatim>\<open>steps\<close> of the rule. A key that is missing is
  \<open>None\<close>, and reading it raises \<^verbatim>\<open>KeyError\<close>.
\<close>

record step =
  op :: "string option"
  item_name :: "string option"
  step_type :: "string option"

record crush_rule =
  rule_type_code :: "int option"
  rule_steps :: "step list option"

definition RULE_TYPES :: "int \<rightharpoonup> string" where
  "RULE_TYPES = [1 \<mapsto> ''replicated'', 3 \<mapsto> ''erasure'']"

text \<open>
  The loop of \<^verbatim>\<open>need_changes\<close> over \<^verbatim>\<open>rule['steps']\<close>. Python's \<^verbatim>\<open>!=\<close>
  between a string and \<open>None\<close> is true, as the inequality of the options is.
\<close>

fun need_changes_loop :: "params \<Rightarrow> step list \<Rightarrow> py_error + bool" where
  "need_changes_loop p [] = Inr False"
| "need_changes_loop p (s # rest) =
     (case op s of
        None \<Rightarrow> Inl KeyError
      | Some opname \<Rightarrow>
          if opname = ''take'' then
            (case item_name s of
               None \<Rightarrow> Inl KeyError
             | Some root_string \<Rightarrow>
                 (case split root_string (CHR ''~'') of
                    [] \<Rightarrow> Inl IndexError
                  | exist_root # classes \<Rightarrow>
                      let exist_class = (case classes of [] \<Rightarrow> None | c # _ \<Rightarrow> Some c) in
                      if Some exist_root \<noteq> bucket_root p \<or> exist_class \<noteq> device_class p
                      then Inr True
                      else need_changes_loop p rest))
          else if opname = ''chooseleaf_firstn'' then
            (case step_type s of
               None \<Rightarrow> Inl KeyError
             | Some t \<Rightarrow>
                 if Some t \<noteq> bucket_type p then Inr True
                 else need_changes_loop p rest)
          else need_changes_loop p rest)"

definition need_changes :: "params \<Rightarrow> crush_rule \<Rightarrow> py_error + bool" where
  "need_changes p rule =
     (case rule_steps rule of
        None \<Rightarrow> Inl KeyError
      | Some ss \<Rightarrow> need_changes_loop p ss)"

text \<open>
  The inspector as the specification words it: a \<^verbatim>\<open>take\<close> step diverges when the
  part of \<^verbatim>\<open>item_name\<close> before the first \<^verbatim>\<open>~\<close> is not the desired root, or
  the part after it, up to the next \<^verbatim>\<open>~\<close> if there is one (and absent when there
  is no \<^verbatim>\<open>~\<close> at all), is not the desired device class; a \<^verbatim>\<open>chooseleaf_firstn\<close> step diverges when its type is not the desired
  bucket type; no other step diverges.
\<close>

definition spec_root_part :: "string \<Rightarrow> string" where
  "spec_root_part item = takeWhile (\<lambda>c. c \<noteq> CHR ''~'') item"

definition spec_class_part :: "string \<Rightarrow> string option" where
  "spec_class_part item =
     (case dropWhile (\<lambda>c. c \<noteq> CHR ''~'') item of
        [] \<Rightarrow> None
      | _ # after \<Rightarrow> Some (takeWhile (\<lambda>c. c \<noteq> CHR ''~'') after))"

definition spec_step_diverges :: "params \<Rightarrow> step \<Rightarrow> bool" where
  "spec_step_diverges p s =
     (if op s = Some ''take'' then
        (case item_name s of
           None \<Rightarrow> False
         | Some item \<Rightarrow>
             Some (spec_root_part item) \<noteq> bucket_root p \<or>
             spec_class_part item \<noteq> device_class p)
      else if op s = Some ''chooseleaf_firstn'' then
        step_type s \<noteq> bucket_type p
      else False)"

text \<open>
  A rule as the cluster dumps it: every step has an \<^verbatim>\<open>op\<close>, every \<^verbatim>\<open>take\<close>
  step an \<^verbatim>\<open>item_name\<close>, every \<^verbatim>\<open>chooseleaf_firstn\<close> step a \<^verbatim>\<open>type\<close>.
\<close>

definition step_keys_present :: "step \<Rightarrow> bool" where
  "step_keys_present s =
     (op s \<noteq> None \<and>
      (op s = Some ''take'' \<longrightarrow> item_name s \<noteq> None) \<and>
      (op s = Some ''chooseleaf_firstn'' \<longrightarrow> step_type s \<noteq> None))"

subsection \<open>The world outside the module\<close>

text \<open>
  A command is the list that Python hands to the executor; an element is \<open>None\<close>
  where the module appends a parameter that the task did not give.
\<close>

type_synonym cmd = "string option list"

text \<open>
  What the module takes from its surroundings, over a state \<open>'w\<close> of the host and
  the cluster: the prefix that \<^verbatim>\<open>build_base_cmd_shell(module)\<close> returns, the run
  of a command with its exit code, standard output and standard error, the temporary
  directories, the files in them, \<^verbatim>\<open>json.loads\<close> on the output of the rule dump,
  and \<^verbatim>\<open>module.check_mode\<close>.
\<close>

record 'w env =
  build_base_cmd_shell :: cmd
  run_command :: "'w \<Rightarrow> cmd \<Rightarrow> (int \<times> string \<times> string) \<times> 'w"
  mkdtemp :: "'w \<Rightarrow> string \<times> 'w"
  rmtree :: "string \<Rightarrow> 'w \<Rightarrow> 'w"
  read_file :: "string \<Rightarrow> 'w \<Rightarrow> py_error + string"
  write_file :: "string \<Rightarrow> string \<Rightarrow> 'w \<Rightarrow> py_error + 'w"
  json_loads :: "string \<Rightarrow> py_error + crush_rule"
  check_mode :: bool

text \<open>
  The state of a run is the state of the world with the list of the commands run so
  far, oldest first. The list is there to say which commands a run has invoked.
\<close>

type_synonym 'w run_state = "'w \<times> cmd list"

text \<open>
  Modelled from the spec: \<^verbatim>\<open>exec_command\<close> of \<^verbatim>\<open>module_utils/ceph_common.py\<close>,
  which is not among the sources. As the cluster command executor of the
  specification and \<^verbatim>\<open>test_exec_command\<close> have it, it runs the argument list once
  and returns the exit code, the command as given, the standard output and the
  standard error.
\<close>

definition exec_command ::
  "'w env \<Rightarrow> cmd \<Rightarrow> 'w run_state \<Rightarrow> (int \<times> cmd \<times> string \<times> string) \<times> 'w run_state" where
  "exec_command env c s =
     (case s of (w, invoked) \<Rightarrow>
        (case run_command env w c of
           ((rc, out, err), w') \<Rightarrow> ((rc, c, out, err), (w', invoked @ [c]))))"

text \<open>
  Modelled from the spec: \<^verbatim>\<open>exit_module\<close> of \<^verbatim>\<open>module_utils/ceph_common.py\<close>,
  which is not among the sources. The call ends the run, as the short circuit of the
  specification and the \<^verbatim>\<open>exit_module\<close> of \<^verbatim>\<open>radosgw_zone.py\<close> (which ends in
  \<^verbatim>\<open>module.exit_json\<close>) have it. The outcome \<open>Exit_module\<close> keeps the arguments
  \<^verbatim>\<open>out\<close>, \<^verbatim>\<open>rc\<close>, \<^verbatim>\<open>cmd\<close>, \<^verbatim>\<open>err\<close> and \<^verbatim>\<open>changed\<close> of the call;
  the times \<^verbatim>\<open>startd\<close>, \<^verbatim>\<open>start\<close>, \<^verbatim>\<open>end\<close> and \<^verbatim>\<open>delta\<close> are left out.
  The other ways a run of the module ends: \<open>Exit_json\<close> is the
  \<^verbatim>\<open>module.exit_json\<close> of the check mode with \<^verbatim>\<open>changed\<close>, \<^verbatim>\<open>stdout\<close>,
  \<^verbatim>\<open>stderr\<close> and \<^verbatim>\<open>rc\<close>; \<open>Fail_json\<close> is \<^verbatim>\<open>module.fail_json\<close> with
  \<^verbatim>\<open>msg\<close>, \<^verbatim>\<open>changed\<close> and \<^verbatim>\<open>rc\<close>; \<open>Raised\<close> is an exception that
  nothing catches.
\<close>

datatype outcome =
    Exit_module string int cmd string bool
  | Exit_json bool string string int
  | Fail_json string bool int
  | Raised py_error

subsection \<open>The commands\<close>

definition get_rule :: "'w env \<Rightarrow> params \<Rightarrow> cmd" where
  "get_rule env p =
     build_base_cmd_shell env @
     [Some ''ceph'', Some ''osd'', Some ''crush'', Some ''rule'', Some ''dump'',
      Some (name p), Some ''--format=json'']"

definition create_rule :: "'w env \<Rightarrow> params \<Rightarrow> cmd" where
  "create_rule env p =
     build_base_cmd_shell env @
     [Some ''ceph'', Some ''osd'', Some ''crush'', Some ''rule''] @
     (if rule_type p = Some ''replicated'' then
        [Some ''create-replicated'', Some (name p), bucket_root p, bucket_type p] @
        (if truthy (device_class p) then [device_class p] else [])
      else
        [Some ''create-erasure'', Some (name p)] @
        (if truthy (profile p) then [profile p] else []))"

definition remove_rule :: "'w env \<Rightarrow> params \<Rightarrow> cmd" where
  "remove_rule env p =
     build_base_cmd_shell env @
     [Some ''ceph'', Some ''osd'', Some ''crush'', Some ''rule'', Some ''rm'', Some (name p)]"

text \<open>
  The commands of \<^verbatim>\<open>decompile_crushmap\<close> and \<^verbatim>\<open>install_crushmap\<close>, for the
  temporary directory they run in.
\<close>

definition mount_cmd :: "'w env \<Rightarrow> string \<Rightarrow> cmd" where
  "mount_cmd env tmpdirname =
     build_base_cmd_shell env @
     [Some ''--mount'', Some (tmpdirname @ '':'' @ tmpdirname), Some ''--'']"

definition dump_crush_map :: "'w env \<Rightarrow> string \<Rightarrow> cmd" where
  "dump_crush_map env tmpdirname =
     mount_cmd env tmpdirname @
     [Some ''ceph'', Some ''osd'', Some ''getcrushmap'', Some ''-o'',
      Some (path_join tmpdirname ''_raw_crushmap.bin'')]"

definition decompile_map :: "'w env \<Rightarrow> string \<Rightarrow> cmd" where
  "decompile_map env tmpdirname =
     mount_cmd env tmpdirname @
     [Some ''crushtool'', Some ''-d'', Some (path_join tmpdirname ''_raw_crushmap.bin''),
      Some ''-o'', Some (path_join tmpdirname ''_crushmap.txt'')]"

definition compile_map :: "'w env \<Rightarrow> string \<Rightarrow> cmd" where
  "compile_map env tmpdirname =
     mount_cmd env tmpdirname @
     [Some ''crushtool'', Some ''-c'', Some (path_join tmpdirname ''_patched_crushmap.txt''),
      Some ''-o'', Some (path_join tmpdirname ''_raw_patched_crushmap.bin'')]"

definition install_map :: "'w env \<Rightarrow> string \<Rightarrow> cmd" where
  "install_map env tmpdirname =
     mount_cmd env tmpdirname @
     [Some ''ceph'', Some ''osd'', Some ''setcrushmap'', Some ''-i'',
      Some (path_join tmpdirname ''_raw_patched_crushmap.bin'')]"

subsection \<open>\<^verbatim>\<open>decompile_crushmap\<close> and \<^verbatim>\<open>install_crushmap\<close>\<close>

text \<open>
  The body of the \<^verbatim>\<open>with tempfile.TemporaryDirectory()\<close> block of
  \<^verbatim>\<open>decompile_crushmap\<close>, and the function, which removes the directory on every
  way out of the block.
\<close>

definition decompile_in ::
  "'w env \<Rightarrow> string \<Rightarrow> 'w run_state \<Rightarrow>
   (py_error + int \<times> cmd \<times> string \<times> string) \<times> 'w run_state" where
  "decompile_in env tmpdirname s =
     (case exec_command env (dump_crush_map env tmpdirname) s of
        ((rc, c, out, err), s1) \<Rightarrow>
          if rc \<noteq> 0 then
            (Inr (rc, c, ''dump of the CRUSH map failed with output: '' @ out, err), s1)
          else
            (case exec_command env (decompile_map env tmpdirname) s1 of
               ((rc, c, out, err), s2) \<Rightarrow>
                 if rc \<noteq> 0 then
                   (Inr (rc, c, ''decompile of the CRUSH map failed with output: '' @ out, err), s2)
                 else
                   (case read_file env (path_join tmpdirname ''_crushmap.txt'') (fst s2) of
                      Inl e \<Rightarrow> (Inl e, s2)
                    | Inr crushmap_content \<Rightarrow>
                        (Inr (0, decompile_map env tmpdirname, crushmap_content, []), s2))))"

definition decompile_crushmap ::
  "'w env \<Rightarrow> 'w run_state \<Rightarrow> (py_error + int \<times> cmd \<times> string \<times> string) \<times> 'w run_state" where
  "decompile_crushmap env s =
     (case s of (w, invoked) \<Rightarrow>
        (case mkdtemp env w of
           (tmpdirname, w1) \<Rightarrow>
             (case decompile_in env tmpdirname (w1, invoked) of
                (res, (w2, invoked2)) \<Rightarrow> (res, (rmtree env tmpdirname w2, invoked2)))))"

definition install_in ::
  "'w env \<Rightarrow> string \<Rightarrow> string \<Rightarrow> 'w run_state \<Rightarrow>
   (py_error + int \<times> cmd \<times> string \<times> string) \<times> 'w run_state" where
  "install_in env tmpdirname crushmap_content s =
     (case s of (w, invoked) \<Rightarrow>
        (case write_file env (path_join tmpdirname ''_patched_crushmap.txt'') crushmap_content w of
           Inl e \<Rightarrow> (Inl e, s)
         | Inr w1 \<Rightarrow>
             (case exec_command env (compile_map env tmpdirname) (w1, invoked) of
                ((rc, c, out, err), s1) \<Rightarrow>
                  if rc \<noteq> 0 then
                    (Inr (rc, c, ''compilation of the CRUSH map failed with output: '' @ out, err), s1)
                  else
                    (case exec_command env (install_map env tmpdirname) s1 of
                       ((rc, c, out, err), s2) \<Rightarrow>
                         if rc \<noteq> 0 then
                           (Inr (rc, c,
                                 ''installation of the CRUSH map failed with output: '' @ out, err), s2)
                         else (Inr (rc, c, out, err), s2)))))"

definition install_crushmap ::
  "'w env \<Rightarrow> string \<Rightarrow> 'w run_state \<Rightarrow>
   (py_error + int \<times> cmd \<times> string \<times> string) \<times> 'w run_state" where
  "install_crushmap env crushmap_content s =
     (case s of (w, invoked) \<Rightarrow>
        (case mkdtemp env w of
           (tmpdirname, w1) \<Rightarrow>
             (case install_in env tmpdirname crushmap_content (w1, invoked) of
                (res, (w2, invoked2)) \<Rightarrow> (res, (rmtree env tmpdirname w2, invoked2)))))"

subsection \<open>\<^verbatim>\<open>main\<close>\<close>

text \<open>
  The branch of \<^verbatim>\<open>main\<close> for \<^verbatim>\<open>state == "present"\<close> when the rule dump
  succeeded; \<open>rc\<close>, \<open>c\<close>, \<open>out\<close> and \<open>err\<close> are the result of the dump.
\<close>

definition update_rule ::
  "'w env \<Rightarrow> params \<Rightarrow> int \<times> cmd \<times> string \<times> string \<Rightarrow> 'w run_state \<Rightarrow>
   outcome \<times> 'w run_state" where
  "update_rule env p dumped s =
     (case dumped of (rc, c, out, err) \<Rightarrow>
      (case json_loads env out of
         Inl e \<Rightarrow> (Raised e, s)
       | Inr rule \<Rightarrow>
           (case rule_type_code rule of
              None \<Rightarrow> (Raised KeyError, s)
            | Some code \<Rightarrow>
                (case RULE_TYPES code of
                   None \<Rightarrow> (Raised KeyError, s)
                 | Some existing \<Rightarrow>
                     if rule_type p \<noteq> Some existing then
                       (Fail_json (''Can not convert crush rule '' @ name p @ '' to '' @
                                   format_str (rule_type p)) False 1, s)
                     else if rule_type p \<noteq> Some ''replicated'' then
                       (Exit_module out rc c err False, s)
                     else
                       (case need_changes p rule of
                          Inl e \<Rightarrow> (Raised e, s)
                        | Inr False \<Rightarrow> (Exit_module out rc c err False, s)
                        | Inr True \<Rightarrow>
                            (case decompile_crushmap env s of
                               (Inl e, s1) \<Rightarrow> (Raised e, s1)
                             | (Inr (rc, c, out, err), s1) \<Rightarrow>
                                 if rc \<noteq> 0 then (Exit_module out rc c err False, s1)
                                 else
                                   (case patch_content p out of
                                      Inl e \<Rightarrow> (Raised e, s1)
                                    | Inr patched_crushmap \<Rightarrow>
                                        (case install_crushmap env patched_crushmap s1 of
                                           (Inl e, s2) \<Rightarrow> (Raised e, s2)
                                         | (Inr (rc, c, out, err), s2) \<Rightarrow>
                                             (Exit_module out rc c err True, s2)))))))))"

text \<open>
  \<^verbatim>\<open>main\<close>, from the parameters that \<^verbatim>\<open>AnsibleModule\<close> has accepted, in the
  world \<open>w\<close>. The result is how the run ends, the world it leaves and the commands
  it has run.
\<close>

definition main :: "'w env \<Rightarrow> params \<Rightarrow> 'w \<Rightarrow> outcome \<times> 'w run_state" where
  "main env p w =
     (if check_mode env then (Exit_json False [] [] 0, (w, []))
      else
        (case exec_command env (get_rule env p) (w, []) of
           ((rc, c, out, err), s) \<Rightarrow>
             if state p = ''present'' then
               (if rc \<noteq> 0 then
                  (case exec_command env (create_rule env p) s of
                     ((rc, c, out, err), s1) \<Rightarrow> (Exit_module out rc c err True, s1))
                else update_rule env p (rc, c, out, err) s)
             else if state p = ''absent'' then
               (if rc = 0 then
                  (case exec_command env (remove_rule env p) s of
                     ((rc, c, out, err), s1) \<Rightarrow> (Exit_module out rc c err True, s1))
                else
                  (Exit_module (''Crush Rule '' @ name p @ '' doesn't exist'') 0 c err False, s))
             else (Exit_module out rc c err False, s)))"

subsection \<open>Example inputs\<close>

text \<open>
  A replicated rule \<^verbatim>\<open>foo\<close> wanted on the root \<^verbatim>\<open>default\<close>, with the failure
  domain \<^verbatim>\<open>host\<close> and the device class \<^verbatim>\<open>hdd\<close>.
\<close>

definition desired :: params where
  "desired = \<lparr>name = ''foo'', state = ''present'', rule_type = Some ''replicated'',
     bucket_root = Some ''default'', bucket_type = Some ''host'',
     device_class = Some ''hdd'', profile = None\<rparr>"

text \<open>A decompiled map with the rule \<^verbatim>\<open>foo\<close> between two comment lines.\<close>

definition map_before :: "string list" where
  "map_before = [''# begin crush map'']"

definition map_body :: "string list" where
  "map_body = [TAB # ''id 1'', TAB # ''type replicated'',
               TAB # ''step take rack1 class ssd'',
               TAB # ''step chooseleaf firstn 0 type rack'', TAB # ''step emit'']"

definition map_after :: "string list" where
  "map_after = [''}'', ''# end crush map'']"

definition map_text :: string where
  "map_text = join [LF] (map_before @ ''rule foo {'' # map_body @ map_after) @ [LF]"

text \<open>A map whose rule \<^verbatim>\<open>foo\<close> has no line between its braces.\<close>

definition empty_rule_text :: string where
  "empty_rule_text = ''rule foo {'' @ [LF] @ ''}'' @ [LF] @ ''# end crush map'' @ [LF]"

text \<open>A map without any rule.\<close>

definition no_rule_text :: string where
  "no_rule_text = ''# begin crush map'' @ [LF] @ ''# end crush map'' @ [LF]"

text \<open>A rule that takes the root \<^verbatim>\<open>ssd\<close> with the device class \<^verbatim>\<open>ssd\<close>.\<close>

definition same_token_text :: string where
  "same_token_text =
     ''rule foo {'' @ [LF, TAB] @ ''step take ssd class ssd'' @ [LF] @ ''}''"

text \<open>The rule \<^verbatim>\<open>foobar\<close> in front of the rule \<^verbatim>\<open>foo\<close>.\<close>

definition two_rules_text :: string where
  "two_rules_text =
     ''rule foobar {'' @ [LF, TAB] @ ''step take rack1'' @ [LF] @ ''}'' @ [LF] @
     ''rule foo {'' @ [LF, TAB] @ ''step take rack1'' @ [LF] @ ''}''"

text \<open>
  The steps of a dumped rule, and three rules: one that takes \<^verbatim>\<open>default~hdd\<close> and
  chooses leaves over hosts, one whose take step has no class suffix, and one whose
  take step has an empty class suffix.
\<close>

definition take_step :: "string \<Rightarrow> step" where
  "take_step item = \<lparr>op = Some ''take'', item_name = Some item, step_type = None\<rparr>"

definition chooseleaf_step :: "string \<Rightarrow> step" where
  "chooseleaf_step t = \<lparr>op = Some ''chooseleaf_firstn'', item_name = None, step_type = Some t\<rparr>"

definition emit_step :: step where
  "emit_step = \<lparr>op = Some ''emit'', item_name = None, step_type = None\<rparr>"

definition dumped_rule :: crush_rule where
  "dumped_rule = \<lparr>rule_type_code = Some 1,
     rule_steps = Some [take_step ''default~hdd'', chooseleaf_step ''host'', emit_step]\<rparr>"

definition plain_rule :: crush_rule where
  "plain_rule = \<lparr>rule_type_code = Some 1,
     rule_steps = Some [take_step ''default'', chooseleaf_step ''host'', emit_step]\<rparr>"

definition empty_class_rule :: crush_rule where
  "empty_class_rule = \<lparr>rule_type_code = Some 1,
     rule_steps = Some [take_step ''default~'', chooseleaf_step ''host'', emit_step]\<rparr>"

text \<open>
  A world that answers the commands from a script: the state counts the commands run
  so far, the \<open>n\<close>-th command gets the \<open>n\<close>-th result of the list, the rule dump
  parses to the given rule, and no file can be read.
\<close>

definition scripted_env :: "(int \<times> string \<times> string) list \<Rightarrow> crush_rule \<Rightarrow> nat env" where
  "scripted_env results rule =
     \<lparr>build_base_cmd_shell = [Some ''cephadm'', Some ''shell''],
      run_command =
        (\<lambda>w c. ((case drop w results of r # _ \<Rightarrow> r | [] \<Rightarrow> (1, [], [])), Suc w)),
      mkdtemp = (\<lambda>w. (''/tmp/tmpq0'', w)),
      rmtree = (\<lambda>d w. w),
      read_file = (\<lambda>f w. Inl OSError),
      write_file = (\<lambda>f c w. Inr w),
      json_loads = (\<lambda>s. Inr rule),
      check_mode = False\<rparr>"

text \<open>The rule dump succeeds and the dump of the map fails.\<close>

definition dump_fails_env :: "nat env" where
  "dump_fails_env = scripted_env [(0, ''{}'', []), (1, ''no map'', ''error text'')] plain_rule"

text \<open>The rule dump and the dump of the map succeed, and the decompiler fails.\<close>

definition decompile_fails_env :: "nat env" where
  "decompile_fails_env =
     scripted_env [(0, ''{}'', []), (0, [], []), (1, ''bad map'', ''error text'')] plain_rule"

text \<open>The rule dump succeeds with a rule that is as wanted.\<close>

definition matching_env :: "nat env" where
  "matching_env = scripted_env [(0, ''{}'', [])] dumped_rule"

text \<open>The rule dump fails: there is no such rule.\<close>

definition missing_env :: "nat env" where
  "missing_env = scripted_env [(2, [], ''Error ENOENT'')] dumped_rule"

text \<open>
  A decompiled map whose rule \<^verbatim>\<open>foo\<close> takes \<^verbatim>\<open>default\<close> without a class, and
  a world in which every command succeeds, the rule dump parses to that rule and the
  decompiled map reads as that text.
\<close>

definition classless_text :: string where
  "classless_text =
     ''rule foo {'' @ [LF, TAB] @ ''step take default'' @ [LF, TAB] @
     ''step chooseleaf firstn 0 type host'' @ [LF] @ ''}'' @ [LF]"

definition empty_class_env :: "nat env" where
  "empty_class_env =
     (scripted_env [(0, ''{}'', []), (0, [], []), (0, [], []), (0, [], []), (0, [], [])]
        plain_rule)\<lparr>read_file := (\<lambda>f w. Inr classless_text)\<rparr>"

section \<open>Properties\<close>

subsection \<open>The lines that \<^verbatim>\<open>patch_content\<close> leaves alone\<close>

lemma startswith_append: "startswith (p @ s) p"
  by (simp add: startswith_def)

lemma close_not_header: "startswith l ''}'' \<Longrightarrow> \<not> startswith l (''rule '' @ n)"
  by (cases l) (auto simp: startswith_def)

lemma patch_lines_no_header:
  "\<forall>l\<in>set ls. \<not> startswith l (''rule '' @ name p) \<Longrightarrow> patch_lines p False ls = Inr ls"
  by (induction ls) auto

lemma patch_lines_prefix:
  "\<forall>l\<in>set pre. \<not> startswith l (''rule '' @ name p) \<Longrightarrow>
   patch_lines p False (pre @ rest) =
     (case patch_lines p False rest of Inl e \<Rightarrow> Inl e | Inr ls \<Rightarrow> Inr (pre @ ls))"
  by (induction pre) (auto split: sum.splits)

lemma reg_bucket_root_groups:
  "reg_bucket_root line = Some (g1, g2, g3) \<Longrightarrow> g2 = None \<longleftrightarrow> g3 = None"
  by (auto simp: reg_bucket_root_def Let_def split: if_splits)

lemma patch_line_ok:
  assumes "bucket_root p \<noteq> None" and "bucket_type p \<noteq> None"
  shows "\<exists>l'. patch_line p l = Inr l'"
proof (cases "reg_bucket_root l")
  case None
  with assms(2) show ?thesis
    by (auto simp: patch_line_def str_replace_def split: option.splits)
next
  case (Some m)
  then obtain g1 g2 g3 where m: "reg_bucket_root l = Some (g1, g2, g3)"
    by (cases m) auto
  from reg_bucket_root_groups[OF m] assms(1) m show ?thesis
    by (cases g3; cases "device_class p") (auto simp: patch_line_def str_replace_def)
qed

lemma patch_lines_body:
  assumes "bucket_root p \<noteq> None" "bucket_type p \<noteq> None"
    and "\<forall>l\<in>set body. \<not> startswith l ''}''"
    and "case rest of [] \<Rightarrow> True | r # _ \<Rightarrow> startswith r ''}''"
  shows "\<exists>body'. length body' = length body \<and>
           patch_lines p True (body @ rest) = Inr (body' @ rest)"
  using assms(3)
proof (induction body)
  case Nil
  show ?case
  proof (cases rest)
    case Nil
    then show ?thesis by simp
  next
    case (Cons r rs)
    with assms(4) have c: "startswith r ''}''" by simp
    then have "\<not> startswith r (''rule '' @ name p)" by (rule close_not_header)
    with c Cons show ?thesis by simp
  qed
next
  case (Cons l body)
  then obtain body' where b: "length body' = length body"
    "patch_lines p True (body @ rest) = Inr (body' @ rest)" by auto
  obtain l' where l': "patch_line p l = Inr l'" using patch_line_ok[OF assms(1,2)] by blast
  from Cons.prems have nc: "\<not> startswith l ''}''" by simp
  show ?case
  proof (cases "startswith l (''rule '' @ name p)")
    case True
    with b have "patch_lines p True ((l # body) @ rest) = Inr ((l # body') @ rest)" by simp
    with b(1) show ?thesis by (metis length_Cons)
  next
    case False
    with b nc l' have "patch_lines p True ((l # body) @ rest) = Inr ((l' # body') @ rest)" by simp
    with b(1) show ?thesis by (metis length_Cons)
  qed
qed

lemma splitlines_map_text:
  "splitlines map_text = map_before @ (''rule foo {'') # map_body @ map_after"
  by code_simp

text \<open>
  Claim C1, as stated: whatever the map text and the rule name, the text outside the
  block of the named rule is the same bytes after \<^verbatim>\<open>patch_content\<close> as before.
  It fails on a map whose rule \<^verbatim>\<open>foo\<close> has nothing between its braces, so that no
  line is inside the block: the line feed that ends the text is gone.
\<close>

theorem patch_content_outside_counterexample:
  "patch_content desired empty_rule_text =
     Inr (''rule foo {'' @ [LF] @ ''}'' @ [LF] @ ''# end crush map'') \<and>
   patch_content desired empty_rule_text \<noteq> Inr empty_rule_text"
  by code_simp

text \<open>
  Claim C1, amended: let the bucket root and the bucket type be given, and let the
  lines of the text be \<open>pre\<close>, then the header \<^verbatim>\<open>rule <name> {\<close> of the named rule,
  then \<open>body\<close>, then \<open>rest\<close>, where no line of \<open>pre\<close> starts with
  \<^verbatim>\<open>rule <name>\<close>, no line of \<open>body\<close> starts with a closing brace, and \<open>rest\<close>
  is empty or starts with the line of the closing brace. Then \<^verbatim>\<open>patch_content\<close>
  returns the lines joined by line feeds where \<open>pre\<close>, the header and \<open>rest\<close> are
  as they were and the block has as many lines as before.
\<close>

theorem patch_content_frame:
  assumes "bucket_root p \<noteq> None" and "bucket_type p \<noteq> None"
    and "splitlines text = pre @ hdr # body @ rest"
    and "\<forall>l\<in>set pre. \<not> startswith l (''rule '' @ name p)"
    and "hdr = ''rule '' @ name p @ '' {''"
    and "\<forall>l\<in>set body. \<not> startswith l ''}''"
    and "case rest of [] \<Rightarrow> True | r # _ \<Rightarrow> startswith r ''}''"
  shows "\<exists>body'. length body' = length body \<and>
           patch_content p text = Inr (join [LF] (pre @ hdr # body' @ rest))"
proof -
  obtain body' where b: "length body' = length body"
    "patch_lines p True (body @ rest) = Inr (body' @ rest)"
    using patch_lines_body[OF assms(1,2,6,7)] by blast
  have h: "startswith hdr (''rule '' @ name p)"
    unfolding assms(5) by (simp add: startswith_def)
  have "patch_lines p False (hdr # body @ rest) = Inr (hdr # body' @ rest)"
    using h b(2) by simp
  then have "patch_lines p False (splitlines text) = Inr (pre @ hdr # body' @ rest)"
    unfolding assms(3) by (simp add: patch_lines_prefix[OF assms(4)])
  then have "patch_content p text = Inr (join [LF] (pre @ hdr # body' @ rest))"
    by (simp add: patch_content_def)
  with b(1) show ?thesis by blast
qed

theorem patch_content_frame_witness:
  "bucket_root desired \<noteq> None \<and> bucket_type desired \<noteq> None \<and>
   splitlines map_text = map_before @ (''rule '' @ name desired @ '' {'') # map_body @ map_after \<and>
   list_all (\<lambda>l. \<not> startswith l (''rule '' @ name desired)) map_before \<and>
   list_all (\<lambda>l. \<not> startswith l ''}'') map_body \<and>
   (case map_after of [] \<Rightarrow> True | r # _ \<Rightarrow> startswith r ''}'') \<and>
   (\<exists>body'. length body' = length map_body \<and>
      patch_content desired map_text =
        Inr (join [LF] (map_before @ (''rule '' @ name desired @ '' {'') # body' @ map_after)))"
proof -
  have h1: "bucket_root desired \<noteq> None" and h2: "bucket_type desired \<noteq> None"
    by (simp_all add: desired_def)
  have h3: "splitlines map_text =
              map_before @ (''rule '' @ name desired @ '' {'') # map_body @ map_after"
    using splitlines_map_text by (simp add: desired_def)
  have h4: "\<forall>l\<in>set map_before. \<not> startswith l (''rule '' @ name desired)"
    by (simp add: map_before_def desired_def startswith_def)
  have h6: "\<forall>l\<in>set map_body. \<not> startswith l ''}''"
    by (simp add: map_body_def startswith_def)
  have h7: "case map_after of [] \<Rightarrow> True | r # _ \<Rightarrow> startswith r ''}''"
    by (simp add: map_after_def startswith_def)
  from patch_content_frame[OF h1 h2 h3 h4 refl h6 h7] h1 h2 h3 h4 h6 h7
  show ?thesis by (simp add: list_all_iff)
qed

text \<open>
  Claim C6, as stated: when the text has no block of the named rule,
  \<^verbatim>\<open>patch_content\<close> returns the text it was given. It fails on a map of two comment
  lines: the result has lost the last line feed.
\<close>

theorem patch_content_identity_counterexample:
  "patch_content desired no_rule_text =
     Inr (''# begin crush map'' @ [LF] @ ''# end crush map'') \<and>
   patch_content desired no_rule_text \<noteq> Inr no_rule_text"
  by code_simp

text \<open>
  Claim C6, amended: when no line of the text starts with \<^verbatim>\<open>rule <name>\<close>,
  \<^verbatim>\<open>patch_content\<close> raises nothing and returns the lines of the text, each as it
  was, joined by line feeds.
\<close>

theorem patch_content_no_block:
  assumes "\<forall>l\<in>set (splitlines text). \<not> startswith l (''rule '' @ name p)"
  shows "patch_content p text = Inr (join [LF] (splitlines text))"
  by (simp add: patch_content_def patch_lines_no_header[OF assms])

theorem patch_content_no_block_witness:
  "list_all (\<lambda>l. \<not> startswith l (''rule '' @ name desired)) (splitlines no_rule_text) \<and>
   patch_content desired no_rule_text = Inr (join [LF] (splitlines no_rule_text))"
proof -
  have l: "splitlines no_rule_text = [''# begin crush map'', ''# end crush map'']"
    by code_simp
  have h: "\<forall>l\<in>set (splitlines no_rule_text). \<not> startswith l (''rule '' @ name desired)"
    unfolding l by (simp add: desired_def startswith_def)
  from patch_content_no_block[OF h] h show ?thesis by (simp add: list_all_iff)
qed

text \<open>
  Claim C2 at a rule that takes the root \<^verbatim>\<open>ssd\<close> with the class \<^verbatim>\<open>ssd\<close>, when
  the root \<^verbatim>\<open>default\<close> and the class \<^verbatim>\<open>hdd\<close> are wanted: the line becomes
  \<^verbatim>\<open>step take default class default\<close>, since replacing the root token has rewritten
  the class token too and the old class is no longer there to be replaced.
\<close>

theorem patch_content_same_token:
  "patch_content desired same_token_text =
     Inr (''rule foo {'' @ [LF, TAB] @ ''step take default class default'' @ [LF] @ ''}'')"
  by code_simp

text \<open>
  Claim C7 at a map with the rule \<^verbatim>\<open>foobar\<close> in front of the rule \<^verbatim>\<open>foo\<close>, when
  \<^verbatim>\<open>foo\<close> is to be patched: the line \<^verbatim>\<open>rule foobar {\<close> opens the block, the step
  of \<^verbatim>\<open>foobar\<close> is rewritten, the scan stops at the closing brace of \<^verbatim>\<open>foobar\<close>,
  and the rule \<^verbatim>\<open>foo\<close> is left as it was.
\<close>

theorem patch_content_prefix_name:
  "patch_content desired two_rules_text =
     Inr (''rule foobar {'' @ [LF, TAB] @ ''step take default class hdd'' @ [LF] @ ''}'' @ [LF] @
          ''rule foo {'' @ [LF, TAB] @ ''step take rack1'' @ [LF] @ ''}'')"
  by code_simp

subsection \<open>\<^verbatim>\<open>need_changes\<close> and the diverging steps\<close>

lemma split_from_no_sep: "sep \<notin> set s \<Longrightarrow> split_from cur sep s = [cur @ s]"
  by (induction s arbitrary: cur) auto

lemma split_from_sep:
  "sep \<notin> set a \<Longrightarrow> split_from cur sep (a @ sep # b) = (cur @ a) # split_from [] sep b"
  by (induction a arbitrary: cur) auto

lemma takeWhile_no_sep: "sep \<notin> set s \<Longrightarrow> takeWhile (\<lambda>c. c \<noteq> sep) s = s"
  by (induction s) auto

lemma takeWhile_sep:
  "sep \<notin> set a \<Longrightarrow> takeWhile (\<lambda>c. c \<noteq> sep) (a @ sep # b) = a"
  by (induction a) auto

lemma dropWhile_no_sep: "sep \<notin> set s \<Longrightarrow> dropWhile (\<lambda>c. c \<noteq> sep) s = []"
  by (induction s) auto

lemma dropWhile_sep:
  "sep \<notin> set a \<Longrightarrow> dropWhile (\<lambda>c. c \<noteq> sep) (a @ sep # b) = sep # b"
  by (induction a) auto

lemma split_from_head:
  "\<exists>rest. split_from [] sep s = takeWhile (\<lambda>c. c \<noteq> sep) s # rest"
proof (cases "sep \<in> set s")
  case False
  then show ?thesis by (simp add: split_from_no_sep takeWhile_no_sep)
next
  case True
  then obtain a b where "s = a @ sep # b" "sep \<notin> set a"
    by (meson split_list_first)
  then show ?thesis by (simp add: split_from_sep takeWhile_sep)
qed

text \<open>The parts that the code reads off the split are the parts of the specification.\<close>

lemma split_parts:
  "\<exists>classes. split item (CHR ''~'') = spec_root_part item # classes \<and>
     (case classes of [] \<Rightarrow> None | c # _ \<Rightarrow> Some c) = spec_class_part item"
proof (cases "CHR ''~'' \<in> set item")
  case False
  then show ?thesis
    by (simp add: split_def spec_root_part_def spec_class_part_def
        split_from_no_sep takeWhile_no_sep dropWhile_no_sep)
next
  case True
  then obtain a b where ab: "item = a @ CHR ''~'' # b" "CHR ''~'' \<notin> set a"
    by (meson split_list_first)
  obtain rest where
    r: "split_from [] (CHR ''~'') b = takeWhile (\<lambda>c. c \<noteq> CHR ''~'') b # rest"
    using split_from_head by blast
  have "split item (CHR ''~'') =
          spec_root_part item # takeWhile (\<lambda>c. c \<noteq> CHR ''~'') b # rest"
    using ab r by (simp add: split_def spec_root_part_def split_from_sep takeWhile_sep)
  moreover have "spec_class_part item = Some (takeWhile (\<lambda>c. c \<noteq> CHR ''~'') b)"
    using ab by (simp add: spec_class_part_def dropWhile_sep)
  ultimately show ?thesis by simp
qed

lemma need_changes_step:
  assumes "step_keys_present s"
  shows "need_changes_loop p (s # rest) =
           (if spec_step_diverges p s then Inr True else need_changes_loop p rest)"
proof -
  from assms obtain opname where o: "op s = Some opname"
    by (auto simp: step_keys_present_def)
  show ?thesis
  proof (cases "opname = ''take''")
    case True
    with assms o obtain item where i: "item_name s = Some item"
      by (auto simp: step_keys_present_def)
    obtain classes where c: "split item (CHR ''~'') = spec_root_part item # classes"
      "(case classes of [] \<Rightarrow> None | c # _ \<Rightarrow> Some c) = spec_class_part item"
      using split_parts by blast
    from True o i c show ?thesis
      by (simp add: spec_step_diverges_def)
  next
    case False
    note nt = this
    show ?thesis
    proof (cases "opname = ''chooseleaf_firstn''")
      case True
      with assms o obtain t where t: "step_type s = Some t"
        by (auto simp: step_keys_present_def)
      from True nt o t show ?thesis
        by (simp add: spec_step_diverges_def)
    next
      case False
      with nt o show ?thesis by (simp add: spec_step_diverges_def)
    qed
  qed
qed

lemma need_changes_loop_spec:
  "\<forall>s\<in>set ss. step_keys_present s \<Longrightarrow>
   need_changes_loop p ss = Inr (\<exists>s\<in>set ss. spec_step_diverges p s)"
proof (induction ss)
  case Nil
  then show ?case by simp
next
  case (Cons s ss)
  then have k: "step_keys_present s"
    and ih: "need_changes_loop p ss = Inr (\<exists>s\<in>set ss. spec_step_diverges p s)"
    by simp_all
  show ?case
    unfolding need_changes_step[OF k] ih by simp
qed

lemma example_steps_present:
  "step_keys_present (take_step item)" "step_keys_present (chooseleaf_step t)"
  "step_keys_present emit_step"
  by (simp_all add: step_keys_present_def take_step_def chooseleaf_step_def emit_step_def)

text \<open>
  Claim C3: for a rule whose steps carry the keys that are read, \<^verbatim>\<open>need_changes\<close>
  returns true exactly when some step of the rule diverges, in the sense of the
  specification, from the wanted root, device class and bucket type; so it returns
  false exactly when every take and chooseleaf step matches, and on a rule without
  such steps.
\<close>

theorem need_changes_iff_diverges:
  assumes "rule_steps rule = Some ss" and "\<forall>s\<in>set ss. step_keys_present s"
  shows "need_changes p rule = Inr (\<exists>s\<in>set ss. spec_step_diverges p s)"
  using assms by (simp add: need_changes_def need_changes_loop_spec)

theorem need_changes_iff_diverges_witness:
  "list_all step_keys_present [take_step ''default~hdd'', chooseleaf_step ''host'', emit_step] \<and>
   need_changes desired dumped_rule = Inr False \<and>
   need_changes (desired\<lparr>bucket_root := Some ''rack1''\<rparr>) dumped_rule = Inr True \<and>
   need_changes desired \<lparr>rule_type_code = Some 1, rule_steps = Some []\<rparr> = Inr False"
proof -
  let ?ss = "[take_step ''default~hdd'', chooseleaf_step ''host'', emit_step]"
  have h1: "rule_steps dumped_rule = Some ?ss"
    by (simp add: dumped_rule_def)
  have h2: "\<forall>s\<in>set ?ss. step_keys_present s"
    by (simp add: example_steps_present)
  have d: "spec_class_part ''default~hdd'' = Some ''hdd''"
    "spec_root_part ''default~hdd'' = ''default''"
    by (simp_all add: spec_class_part_def spec_root_part_def)
  have a: "need_changes desired dumped_rule = Inr False"
    unfolding need_changes_iff_diverges[OF h1 h2]
    by (simp add: spec_step_diverges_def take_step_def chooseleaf_step_def emit_step_def
        desired_def d)
  have b: "need_changes (desired\<lparr>bucket_root := Some ''rack1''\<rparr>) dumped_rule = Inr True"
    unfolding need_changes_iff_diverges[OF h1 h2]
    by (simp add: spec_step_diverges_def take_step_def chooseleaf_step_def emit_step_def
        desired_def d)
  have c: "need_changes desired \<lparr>rule_type_code = Some 1, rule_steps = Some []\<rparr> = Inr False"
    by (subst need_changes_iff_diverges[where ss = "[]"]) simp_all
  from h2 a b c show ?thesis by (simp add: list_all_iff)
qed

text \<open>
  Claim C9 at the empty device class. \<^verbatim>\<open>create_rule\<close> builds the same command
  for the empty device class as for none, and \<^verbatim>\<open>patch_content\<close> leaves every
  line of a rule without a class as it is. \<^verbatim>\<open>need_changes\<close> does not take the two
  for the same: on the rule that takes \<^verbatim>\<open>default\<close> it asks for a change with the
  empty device class and for none without a device class, and on the rule that takes
  \<^verbatim>\<open>default~\<close> it asks for a change when no device class is wanted. So a run with
  the empty device class on a rule that is already as wanted dumps, decompiles,
  compiles and installs a map with the same lines, and reports a change.
\<close>

theorem need_changes_empty_class:
  "need_changes (desired\<lparr>device_class := Some []\<rparr>) plain_rule = Inr True \<and>
   need_changes (desired\<lparr>device_class := None\<rparr>) plain_rule = Inr False \<and>
   need_changes (desired\<lparr>device_class := None\<rparr>) empty_class_rule = Inr True \<and>
   create_rule empty_class_env (desired\<lparr>device_class := Some []\<rparr>) =
     create_rule empty_class_env (desired\<lparr>device_class := None\<rparr>) \<and>
   patch_content (desired\<lparr>device_class := Some []\<rparr>) classless_text =
     Inr (join [LF] (splitlines classless_text)) \<and>
   main empty_class_env (desired\<lparr>device_class := Some []\<rparr>) 0 =
     (Exit_module [] 0 (install_map empty_class_env ''/tmp/tmpq0'') [] True,
      (5, [get_rule empty_class_env desired,
           dump_crush_map empty_class_env ''/tmp/tmpq0'',
           decompile_map empty_class_env ''/tmp/tmpq0'',
           compile_map empty_class_env ''/tmp/tmpq0'',
           install_map empty_class_env ''/tmp/tmpq0'']))"
  by code_simp

subsection \<open>The runs of \<^verbatim>\<open>main\<close>\<close>

lemma exec_command_run:
  "run_command env w c = ((rc, out, err), w') \<Longrightarrow>
   exec_command env c (w, invoked) = ((rc, c, out, err), (w', invoked @ [c]))"
  by (simp add: exec_command_def)

lemma get_rule_not_remove: "get_rule env p \<noteq> remove_rule env p"
  by (simp add: get_rule_def remove_rule_def)

lemma compile_not_others:
  "compile_map env d' \<noteq> get_rule env p" "compile_map env d' \<noteq> dump_crush_map env d"
  "compile_map env d' \<noteq> decompile_map env d"
  by (simp_all add: compile_map_def get_rule_def dump_crush_map_def decompile_map_def
      mount_cmd_def)

lemma install_not_others:
  "install_map env d' \<noteq> get_rule env p" "install_map env d' \<noteq> dump_crush_map env d"
  "install_map env d' \<noteq> decompile_map env d"
  by (simp_all add: install_map_def get_rule_def dump_crush_map_def decompile_map_def
      mount_cmd_def)

lemma scripted_env_simps:
  "check_mode (scripted_env rs r) = False"
  "json_loads (scripted_env rs r) out = Inr r"
  "mkdtemp (scripted_env rs r) w = (''/tmp/tmpq0'', w)"
  "rmtree (scripted_env rs r) d w = w"
  "run_command (scripted_env rs r) w c =
     ((case drop w rs of x # _ \<Rightarrow> x | [] \<Rightarrow> (1, [], [])), Suc w)"
  by (simp_all add: scripted_env_def)

text \<open>
  Claim C4, as stated: when the dump of the map or the decompiler exits nonzero, the
  message of the failure names the decompile stage. It fails when the dump of the map
  is what fails: the message names the dump.
\<close>

theorem dump_failure_counterexample:
  "fst (main dump_fails_env desired 0) =
     Exit_module ''dump of the CRUSH map failed with output: no map'' 1
       (dump_crush_map dump_fails_env ''/tmp/tmpq0'') ''error text'' False"
  by code_simp

text \<open>
  Claim C4, amended: let the state be present, the rule exist as a replicated rule
  and \<^verbatim>\<open>need_changes\<close> be true. When the dump of the map exits nonzero, the run
  ends after it, with its exit code, its command, its standard error, no change, and
  the message \<^verbatim>\<open>dump of the CRUSH map failed with output: \<close> followed by its standard
  output. When the dump succeeds and the decompiler exits nonzero, the run ends after
  the decompiler in the same way, with the message
  \<^verbatim>\<open>decompile of the CRUSH map failed with output: \<close> followed by the standard output
  of the decompiler. In both cases the commands run are the rule dump, the dump of the
  map and, in the second, the decompiler: no compile and no install command.
\<close>

theorem decompile_failure_short_circuits:
  assumes "\<not> check_mode env" and "state p = ''present''"
    and "run_command env w (get_rule env p) = ((0, out, err), w1)"
    and "json_loads env out = Inr rule" and "rule_type_code rule = Some code"
    and "RULE_TYPES code = Some ''replicated''" and "rule_type p = Some ''replicated''"
    and "need_changes p rule = Inr True"
    and "mkdtemp env w1 = (d, w2)"
    and "run_command env w2 (dump_crush_map env d) = ((rc1, out1, err1), w3)"
    and "run_command env w3 (decompile_map env d) = ((rc2, out2, err2), w4)"
  shows "(rc1 \<noteq> 0 \<longrightarrow>
            main env p w =
              (Exit_module (''dump of the CRUSH map failed with output: '' @ out1) rc1
                 (dump_crush_map env d) err1 False,
               (rmtree env d w3, [get_rule env p, dump_crush_map env d]))) \<and>
         (rc1 = 0 \<and> rc2 \<noteq> 0 \<longrightarrow>
            main env p w =
              (Exit_module (''decompile of the CRUSH map failed with output: '' @ out2) rc2
                 (decompile_map env d) err2 False,
               (rmtree env d w4,
                [get_rule env p, dump_crush_map env d, decompile_map env d]))) \<and>
         (rc1 \<noteq> 0 \<or> rc2 \<noteq> 0 \<longrightarrow>
            (\<forall>d'. compile_map env d' \<notin> set (snd (snd (main env p w))) \<and>
                  install_map env d' \<notin> set (snd (snd (main env p w)))))"
proof -
  have a: "main env p w =
              (Exit_module (''dump of the CRUSH map failed with output: '' @ out1) rc1
                 (dump_crush_map env d) err1 False,
               (rmtree env d w3, [get_rule env p, dump_crush_map env d]))" if "rc1 \<noteq> 0"
    using assms that
    by (simp add: main_def update_rule_def exec_command_run decompile_crushmap_def
        decompile_in_def)
  have b: "main env p w =
              (Exit_module (''decompile of the CRUSH map failed with output: '' @ out2) rc2
                 (decompile_map env d) err2 False,
               (rmtree env d w4,
                [get_rule env p, dump_crush_map env d, decompile_map env d]))"
    if "rc1 = 0" "rc2 \<noteq> 0"
    using assms that
    by (simp add: main_def update_rule_def exec_command_run decompile_crushmap_def
        decompile_in_def)
  have c: "\<forall>d'. compile_map env d' \<notin> set (snd (snd (main env p w))) \<and>
                install_map env d' \<notin> set (snd (snd (main env p w)))"
    if "rc1 \<noteq> 0 \<or> rc2 \<noteq> 0"
  proof (cases "rc1 \<noteq> 0")
    case True
    show ?thesis unfolding a[OF True] by (simp add: compile_not_others install_not_others)
  next
    case False
    with that have z: "rc1 = 0" "rc2 \<noteq> 0" by auto
    show ?thesis unfolding b[OF z] by (simp add: compile_not_others install_not_others)
  qed
  from a b c show ?thesis by blast
qed

theorem decompile_failure_short_circuits_witness:
  "need_changes desired plain_rule = Inr True \<and>
   main dump_fails_env desired 0 =
     (Exit_module ''dump of the CRUSH map failed with output: no map'' 1
        (dump_crush_map dump_fails_env ''/tmp/tmpq0'') ''error text'' False,
      (2, [get_rule dump_fails_env desired, dump_crush_map dump_fails_env ''/tmp/tmpq0''])) \<and>
   main decompile_fails_env desired 0 =
     (Exit_module ''decompile of the CRUSH map failed with output: bad map'' 1
        (decompile_map decompile_fails_env ''/tmp/tmpq0'') ''error text'' False,
      (3, [get_rule decompile_fails_env desired,
           dump_crush_map decompile_fails_env ''/tmp/tmpq0'',
           decompile_map decompile_fails_env ''/tmp/tmpq0'']))"
proof -
  have n: "need_changes desired plain_rule = Inr True"
    by code_simp
  have p: "state desired = ''present''" "rule_type desired = Some ''replicated''"
    by (simp_all add: desired_def)
  have r: "rule_type_code plain_rule = Some 1" "RULE_TYPES 1 = Some ''replicated''"
    by (simp_all add: plain_rule_def RULE_TYPES_def)
  have a: "main dump_fails_env desired 0 =
     (Exit_module ''dump of the CRUSH map failed with output: no map'' 1
        (dump_crush_map dump_fails_env ''/tmp/tmpq0'') ''error text'' False,
      (2, [get_rule dump_fails_env desired, dump_crush_map dump_fails_env ''/tmp/tmpq0'']))"
    using decompile_failure_short_circuits[of dump_fails_env desired 0 "''{}''" "[]" 1
        plain_rule 1 "''/tmp/tmpq0''" 1 1 "''no map''" "''error text''" 2
        1 "[]" "[]" 3] n p r
    by (simp add: dump_fails_env_def scripted_env_simps)
  have b: "main decompile_fails_env desired 0 =
     (Exit_module ''decompile of the CRUSH map failed with output: bad map'' 1
        (decompile_map decompile_fails_env ''/tmp/tmpq0'') ''error text'' False,
      (3, [get_rule decompile_fails_env desired,
           dump_crush_map decompile_fails_env ''/tmp/tmpq0'',
           decompile_map decompile_fails_env ''/tmp/tmpq0'']))"
    using decompile_failure_short_circuits[of decompile_fails_env desired 0 "''{}''" "[]" 1
        plain_rule 1 "''/tmp/tmpq0''" 1 0 "[]" "[]" 2
        1 "''bad map''" "''error text''" 3] n p r
    by (simp add: decompile_fails_env_def scripted_env_simps)
  from n a b show ?thesis by simp
qed

text \<open>
  Claim C5: when the state is present and the rule dump shows a rule of another type
  than the wanted one, the run ends in \<^verbatim>\<open>fail_json\<close> with \<^verbatim>\<open>changed\<close> false and
  the return code 1, and the rule dump is the only command it has run.
\<close>

theorem type_change_rejected:
  assumes "\<not> check_mode env" and "state p = ''present''"
    and "run_command env w (get_rule env p) = ((0, out, err), w')"
    and "json_loads env out = Inr rule" and "rule_type_code rule = Some code"
    and "RULE_TYPES code = Some existing" and "rule_type p \<noteq> Some existing"
  shows "main env p w =
           (Fail_json (''Can not convert crush rule '' @ name p @ '' to '' @
                       format_str (rule_type p)) False 1,
            (w', [get_rule env p]))"
  using assms by (simp add: main_def update_rule_def exec_command_run)

theorem type_change_rejected_witness:
  "RULE_TYPES 1 = Some ''replicated'' \<and>
   main matching_env (desired\<lparr>rule_type := Some ''erasure''\<rparr>) 0 =
     (Fail_json ''Can not convert crush rule foo to erasure'' False 1,
      (1, [get_rule matching_env (desired\<lparr>rule_type := Some ''erasure''\<rparr>)]))"
proof -
  have r: "rule_type_code dumped_rule = Some 1" "RULE_TYPES 1 = Some ''replicated''"
    by (simp_all add: dumped_rule_def RULE_TYPES_def)
  have m: "main matching_env (desired\<lparr>rule_type := Some ''erasure''\<rparr>) 0 =
     (Fail_json ''Can not convert crush rule foo to erasure'' False 1,
      (1, [get_rule matching_env (desired\<lparr>rule_type := Some ''erasure''\<rparr>)]))"
    using type_change_rejected[of matching_env "desired\<lparr>rule_type := Some ''erasure''\<rparr>" 0
        "''{}''" "[]" 1 dumped_rule 1 "''replicated''"] r
    by (simp add: matching_env_def scripted_env_simps) (simp add: desired_def)
  from r(2) m show ?thesis by simp
qed

text \<open>
  Claim C8: when the state is present, the rule exists as a replicated rule, a
  replicated rule is wanted and \<^verbatim>\<open>need_changes\<close> is false, the run ends with
  \<^verbatim>\<open>changed\<close> false and the result of the rule dump, and the rule dump is the only
  command it has run.
\<close>

theorem matching_rule_no_change:
  assumes "\<not> check_mode env" and "state p = ''present''"
    and "run_command env w (get_rule env p) = ((0, out, err), w')"
    and "json_loads env out = Inr rule" and "rule_type_code rule = Some code"
    and "RULE_TYPES code = Some ''replicated''" and "rule_type p = Some ''replicated''"
    and "need_changes p rule = Inr False"
  shows "main env p w = (Exit_module out 0 (get_rule env p) err False, (w', [get_rule env p]))"
  using assms by (simp add: main_def update_rule_def exec_command_run)

theorem matching_rule_no_change_witness:
  "need_changes desired dumped_rule = Inr False \<and>
   main matching_env desired 0 =
     (Exit_module ''{}'' 0 (get_rule matching_env desired) [] False,
      (1, [get_rule matching_env desired]))"
proof -
  have n: "need_changes desired dumped_rule = Inr False"
    by code_simp
  have p: "state desired = ''present''" "rule_type desired = Some ''replicated''"
    by (simp_all add: desired_def)
  have r: "rule_type_code dumped_rule = Some 1" "RULE_TYPES 1 = Some ''replicated''"
    by (simp_all add: dumped_rule_def RULE_TYPES_def)
  have m: "main matching_env desired 0 =
     (Exit_module ''{}'' 0 (get_rule matching_env desired) [] False,
      (1, [get_rule matching_env desired]))"
    using matching_rule_no_change[of matching_env desired 0 "''{}''" "[]" 1 dumped_rule 1]
      n p r
    by (simp add: matching_env_def scripted_env_simps)
  from n m show ?thesis by simp
qed

text \<open>
  Claim C10: when the state is absent and the rule dump exits nonzero, the run ends
  with the return code 0, \<^verbatim>\<open>changed\<close> false and the message that the rule doesn't
  exist; the rule dump is the only command it has run, and the command that removes
  the rule is not among the commands run.
\<close>

theorem absent_rule_missing:
  assumes "\<not> check_mode env" and "state p = ''absent''"
    and "run_command env w (get_rule env p) = ((rc, out, err), w')" and "rc \<noteq> 0"
  shows "main env p w =
           (Exit_module (''Crush Rule '' @ name p @ '' doesn't exist'') 0 (get_rule env p)
              err False,
            (w', [get_rule env p])) \<and>
         remove_rule env p \<notin> set (snd (snd (main env p w)))"
proof -
  have m: "main env p w =
           (Exit_module (''Crush Rule '' @ name p @ '' doesn't exist'') 0 (get_rule env p)
              err False,
            (w', [get_rule env p]))"
    using assms by (simp add: main_def exec_command_run)
  show ?thesis unfolding m using get_rule_not_remove[of env p] by auto
qed

theorem absent_rule_missing_witness:
  "main missing_env (desired\<lparr>state := ''absent''\<rparr>) 0 =
     (Exit_module ''Crush Rule foo doesn't exist'' 0
        (get_rule missing_env (desired\<lparr>state := ''absent''\<rparr>)) ''Error ENOENT'' False,
      (1, [get_rule missing_env (desired\<lparr>state := ''absent''\<rparr>)])) \<and>
   remove_rule missing_env (desired\<lparr>state := ''absent''\<rparr>)
     \<notin> set (snd (snd (main missing_env (desired\<lparr>state := ''absent''\<rparr>) 0)))"
proof -
  let ?p = "desired\<lparr>state := ''absent''\<rparr>"
  have h1: "\<not> check_mode missing_env"
    by (simp add: missing_env_def scripted_env_simps)
  have h2: "state ?p = ''absent''"
    by simp
  have h3: "run_command missing_env 0 (get_rule missing_env ?p) = ((2, [], ''Error ENOENT''), 1)"
    by (simp add: missing_env_def scripted_env_simps)
  have h4: "(2::int) \<noteq> 0"
    by simp
  note t = absent_rule_missing[OF h1 h2 h3 h4]
  from t have a: "main missing_env ?p 0 =
     (Exit_module ''Crush Rule foo doesn't exist'' 0
        (get_rule missing_env ?p) ''Error ENOENT'' False,
      (1, [get_rule missing_env ?p]))"
    by (simp add: desired_def)
  from t have b: "remove_rule missing_env ?p \<notin> set (snd (snd (main missing_env ?p 0)))"
    by (rule conjunct2)
  from a b show ?thesis by (rule conjI)
qed

end
